theory Spec2Isabelle
  imports Main "HOL-Library.Multiset"
begin

section \<open>Python values used by the facade\<close>

text \<open>
  A raised Python exception object: the name of its class (\<open>type(e).__name__\<close>), its
  \<open>str(e)\<close>, the text \<open>''.join(traceback.format_exception(...))\<close> gives for it, and
  whether its class derives from \<open>Exception\<close> (an \<open>except Exception\<close> clause catches it)
  or only from \<open>BaseException\<close> (\<open>KeyboardInterrupt\<close>, \<open>SystemExit\<close>, \<open>GeneratorExit\<close>).
\<close>

datatype pyexc = PyExc (exc_name: string) (exc_str: string) (exc_trace: string) (is_Exception: bool)

text \<open>The result of a call: a returned value or a raised exception.\<close>

datatype 'a outcome = Return 'a | Raise pyexc

text \<open>Values of the keyword fields of a log call.\<close>

datatype pyval = VBool bool | VInt int | VStr string | VNone

section \<open>String operations of the exporter factory\<close>

text \<open>\<open>str.rstrip('/')\<close>: drop every trailing slash.\<close>

definition rstrip_slash :: "string \<Rightarrow> string" where
  "rstrip_slash s = rev (dropWhile (\<lambda>c. c = CHR ''/'') (rev s))"

text \<open>
  \<open>str.lower()\<close> on the 8-bit characters of a \<^typ>\<open>string\<close>: \<open>A-Z\<close> and the Latin-1
  capitals (\<open>0xC0-0xDE\<close> without the multiplication sign \<open>0xD7\<close>) move up by 32, every other
  character stays.
\<close>

definition lower_char :: "char \<Rightarrow> char" where
  "lower_char c =
    (let n = (of_char c :: nat) in
     if (65 \<le> n \<and> n \<le> 90) \<or> (192 \<le> n \<and> n \<le> 222 \<and> n \<noteq> 215)
     then char_of (n + 32) else c)"

definition lower :: "string \<Rightarrow> string" where
  "lower s = map lower_char s"

section \<open>ExporterFactory: \<open>LogzAIBase._make_log_exporter\<close>, \<open>_make_trace_exporter\<close>\<close>

text \<open>
  The four exporter classes the factory imports, and an exporter object as the factory
  constructs it: its class, the \<open>endpoint=\<close> argument and the \<open>headers=\<close> argument
  (\<open>list(headers.items())\<close>, the dictionary's items in insertion order).
\<close>

datatype transport = Grpc | Http

datatype signal = Logs | Traces

record exporter =
  exp_transport :: transport
  exp_signal :: signal
  exp_endpoint :: string
  exp_headers :: "(string \<times> string) list"

definition make_log_exporter :: "string \<Rightarrow> (string \<times> string) list \<Rightarrow> string \<Rightarrow> exporter" where
  "make_log_exporter endpoint headers protocol =
    (let log_url = rstrip_slash endpoint @ ''/logs'' in
     if lower protocol = ''grpc''
     then \<lparr>exp_transport = Grpc, exp_signal = Logs, exp_endpoint = log_url, exp_headers = headers\<rparr>
     else \<lparr>exp_transport = Http, exp_signal = Logs, exp_endpoint = log_url, exp_headers = headers\<rparr>)"

definition make_trace_exporter :: "string \<Rightarrow> (string \<times> string) list \<Rightarrow> string \<Rightarrow> exporter" where
  "make_trace_exporter endpoint headers protocol =
    (let trace_url = rstrip_slash endpoint @ ''/traces'' in
     if lower protocol = ''grpc''
     then \<lparr>exp_transport = Grpc, exp_signal = Traces, exp_endpoint = trace_url, exp_headers = headers\<rparr>
     else \<lparr>exp_transport = Http, exp_signal = Traces, exp_endpoint = trace_url, exp_headers = headers\<rparr>)"

text \<open>Whether a string ends in a slash.\<close>

definition ends_with_slash :: "string \<Rightarrow> bool" where
  "ends_with_slash s = (case rev s of [] \<Rightarrow> False | c # _ \<Rightarrow> c = CHR ''/'')"

section \<open>The facade state: \<open>LogzAIBase.__init__\<close>\<close>

text \<open>
  A provider object of the export library (\<open>LoggerProvider\<close>, \<open>TracerProvider\<close>) as the
  facade builds it: the resource attributes it was created with, the exporters wrapped by the
  batch processors added to it, and how often its \<open>shutdown()\<close> has been called.
\<close>

record provider =
  prov_resource :: "(string \<times> string) list"
  prov_processors :: "exporter list"
  prov_shutdown_calls :: nat

text \<open>
  The handlers \<open>init\<close> adds to the logger: \<open>LoggingHandler(level, logger_provider)\<close> with
  its level, and the console \<open>StreamHandler\<close> with its level and format string.
\<close>

datatype handler = LoggingHandler int | StreamHandler int string

text \<open>
  One call \<open>logger.log(level, message, extra=kwargs, stacklevel=stacklevel)\<close>, with its four
  arguments. \<open>lc_exc_info\<close> is not an argument of that call: it is the value of the
  \<open>exc_info\<close> parameter of the \<open>log\<close> call of the facade that made it, kept with the call
  so that callers of \<open>log\<close> that differ only in what they pass for \<open>exc_info\<close> can be told
  apart.
\<close>

record log_call =
  lc_level :: int
  lc_message :: string
  lc_extra :: "string \<rightharpoonup> pyval"
  lc_stacklevel :: int
  lc_exc_info :: bool

text \<open>
  The \<open>logging.Logger\<close> named \<open>logzai\<close>: its level, handlers and \<open>propagate\<close> flag, and the
  \<open>log\<close> calls made on it, oldest first.
\<close>

record logger =
  lg_level :: int
  lg_handlers :: "handler list"
  lg_propagate :: bool
  lg_calls :: "log_call list"

record tracer =
  tr_name :: string

record facade =
  log_provider :: "provider option"
  tracer_provider :: "provider option"
  logger :: "logger option"
  tracer :: "tracer option"
  mirror_to_console :: bool

definition new_facade :: facade where
  "new_facade = \<lparr>log_provider = None, tracer_provider = None, logger = None, tracer = None,
     mirror_to_console = False\<rparr>"

text \<open>The levels of the \<open>logging\<close> module.\<close>

definition NOTSET :: int where "NOTSET = 0"
definition DEBUG :: int where "DEBUG = 10"
definition INFO :: int where "INFO = 20"
definition WARNING :: int where "WARNING = 30"
definition ERROR :: int where "ERROR = 40"
definition CRITICAL :: int where "CRITICAL = 50"

text \<open>
  \<open>RuntimeError("LogzAI not initialized. Call logzai.init(...) first.")\<close>, the error of
  \<open>log\<close> and \<open>start_span\<close> on a facade without logger or tracer.
\<close>

definition not_initialized :: pyexc where
  "not_initialized =
    PyExc ''RuntimeError'' ''LogzAI not initialized. Call logzai.init(...) first.'' [] True"

text \<open>A keyword argument with a default: the value passed, or the default when omitted.\<close>

definition arg_or :: "'a \<Rightarrow> 'a option \<Rightarrow> 'a" where
  "arg_or d a = (case a of None \<Rightarrow> d | Some v \<Rightarrow> v)"

section \<open>TelemetryPipeline: \<open>LogzAI.init\<close>\<close>

text \<open>
  The arguments of \<open>init\<close>. \<open>default_args token\<close> is the call \<open>init(token)\<close> with every
  other argument at its default.
\<close>

record init_args =
  ingest_token :: string
  ingest_endpoint :: string
  min_level :: int
  service_name :: string
  service_namespace :: string
  environment :: string
  protocol :: string
  mirror :: bool
  origin :: "string option"

definition default_args :: "string \<Rightarrow> init_args" where
  "default_args token =
    \<lparr>ingest_token = token, ingest_endpoint = ''http://ingest.logzai.com'', min_level = DEBUG,
     service_name = ''app'', service_namespace = ''default'', environment = ''prod'',
     protocol = ''http'', mirror = False, origin = None\<rparr>"

text \<open>\<open>if origin:\<close> holds for a non-empty string, not for \<open>None\<close> or \<open>""\<close>.\<close>

definition truthy :: "string option \<Rightarrow> bool" where
  "truthy v = (case v of None \<Rightarrow> False | Some s \<Rightarrow> s \<noteq> [])"

definition resource_attrs :: "init_args \<Rightarrow> (string \<times> string) list" where
  "resource_attrs a =
    [(''service.name'', service_name a), (''service.namespace'', service_namespace a),
     (''deployment.environment'', environment a)]
    @ (if truthy (origin a) then [(''origin'', the (origin a))] else [])"

definition headers :: "init_args \<Rightarrow> (string \<times> string) list" where
  "headers a =
    [(''x-ingest-token'', ingest_token a)]
    @ (if truthy (origin a) then [(''x-origin'', the (origin a))] else [])"

text \<open>
  \<open>logging.getLogger("logzai")\<close> returns the one logger of that name: a new one (level
  \<open>NOTSET\<close>, no handlers, propagating) at the first \<open>init\<close>, the same object, with the
  handlers it already has, at a later one.
\<close>

definition getLogger :: "facade \<Rightarrow> logger" where
  "getLogger st =
    (case logger st of
       None \<Rightarrow> \<lparr>lg_level = NOTSET, lg_handlers = [], lg_propagate = True, lg_calls = []\<rparr>
     | Some l \<Rightarrow> l)"

definition console_format :: string where
  "console_format = ''%(asctime)s - %(name)s - %(levelname)s - %(message)s''"

definition init :: "facade \<Rightarrow> init_args \<Rightarrow> unit outcome \<times> facade" where
  "init st a =
    (let resource = resource_attrs a;
         hdrs = headers a;
         span_processor = make_trace_exporter (ingest_endpoint a) hdrs (protocol a);
         tp = \<lparr>prov_resource = resource, prov_processors = [span_processor], prov_shutdown_calls = 0\<rparr>;
         log_processor = make_log_exporter (ingest_endpoint a) hdrs (protocol a);
         lp = \<lparr>prov_resource = resource, prov_processors = [log_processor], prov_shutdown_calls = 0\<rparr>;
         l0 = getLogger st;
         l1 = l0\<lparr>lg_level := min_level a, lg_handlers := lg_handlers l0 @ [LoggingHandler NOTSET],
                lg_propagate := False\<rparr>;
         l2 = (if mirror a
               then l1\<lparr>lg_handlers := lg_handlers l1 @ [StreamHandler (min_level a) console_format]\<rparr>
               else l1)
     in (Return (),
         st\<lparr>mirror_to_console := mirror a, tracer_provider := Some tp,
            tracer := Some \<lparr>tr_name = ''logzai''\<rparr>, log_provider := Some lp, logger := Some l2\<rparr>))"

section \<open>LogFacade: \<open>LogzAI.log\<close> and the leveled wrappers\<close>

text \<open>
  \<open>log(level, message, *, stacklevel=2, exc_info=False, **kwargs)\<close>. The two keyword
  arguments are options (\<open>None\<close>: omitted by the caller). \<open>sys_exc_info\<close> is what
  \<open>sys.exc_info()\<close> gives in the calling thread: the exception being handled, if any.
  The call made on the logger is appended to the logger's calls.
\<close>

definition log_default_stacklevel :: int where
  "log_default_stacklevel = 2"

definition add_exception_fields :: "pyexc \<Rightarrow> (string \<rightharpoonup> pyval) \<Rightarrow> (string \<rightharpoonup> pyval)" where
  "add_exception_fields e kwargs =
    kwargs(''is_exception'' \<mapsto> VBool True,
           ''exception.type'' \<mapsto> VStr (exc_name e),
           ''exception.message'' \<mapsto> VStr (exc_str e),
           ''exception.stacktrace'' \<mapsto> VStr (exc_trace e))"

definition log ::
  "facade \<Rightarrow> int \<Rightarrow> string \<Rightarrow> int option \<Rightarrow> bool option \<Rightarrow> (string \<rightharpoonup> pyval) \<Rightarrow> pyexc option
    \<Rightarrow> unit outcome \<times> facade" where
  "log st level message stacklevel exc_info kwargs sys_exc_info =
    (case logger st of
       None \<Rightarrow> (Raise not_initialized, st)
     | Some l \<Rightarrow>
        (let kwargs1 =
               (if arg_or False exc_info \<or> sys_exc_info \<noteq> None
                then (case sys_exc_info of
                        None \<Rightarrow> kwargs
                      | Some e \<Rightarrow> add_exception_fields e kwargs)
                else kwargs);
             call = \<lparr>lc_level = level, lc_message = message, lc_extra = kwargs1,
                     lc_stacklevel = arg_or log_default_stacklevel stacklevel,
                     lc_exc_info = arg_or False exc_info\<rparr>
         in (Return (), st\<lparr>logger := Some (l\<lparr>lg_calls := lg_calls l @ [call]\<rparr>)\<rparr>)))"

text \<open>
  The body of each leveled wrapper is one call
  \<open>self.log(LEVEL, message, stacklevel=3, exc_info=exc_info, **kwargs)\<close>. The arguments of
  that call are kept as a record, so that what a wrapper passes for \<open>exc_info\<close> and
  \<open>stacklevel\<close> can be read off: \<open>debug_args message exc_info kwargs\<close> is what \<open>debug\<close> passes
  when called with \<open>message\<close>, \<open>exc_info\<close> (\<open>None\<close>: omitted, the default of the wrapper's
  signature applies) and \<open>kwargs\<close>; \<open>call_log\<close> is the call of \<open>log\<close> with such arguments.
\<close>

record log_args =
  la_level :: int
  la_message :: string
  la_stacklevel :: "int option"
  la_exc_info :: "bool option"
  la_kwargs :: "string \<rightharpoonup> pyval"

definition call_log :: "facade \<Rightarrow> log_args \<Rightarrow> pyexc option \<Rightarrow> unit outcome \<times> facade" where
  "call_log st a sys_exc_info =
    log st (la_level a) (la_message a) (la_stacklevel a) (la_exc_info a) (la_kwargs a) sys_exc_info"

definition debug_args :: "string \<Rightarrow> bool option \<Rightarrow> (string \<rightharpoonup> pyval) \<Rightarrow> log_args" where
  "debug_args message exc_info kwargs =
    \<lparr>la_level = DEBUG, la_message = message, la_stacklevel = Some 3,
     la_exc_info = Some (arg_or False exc_info), la_kwargs = kwargs\<rparr>"

definition debug ::
  "facade \<Rightarrow> string \<Rightarrow> bool option \<Rightarrow> (string \<rightharpoonup> pyval) \<Rightarrow> pyexc option \<Rightarrow> unit outcome \<times> facade" where
  "debug st message exc_info kwargs sys_exc_info =
    call_log st (debug_args message exc_info kwargs) sys_exc_info"

definition info_args :: "string \<Rightarrow> bool option \<Rightarrow> (string \<rightharpoonup> pyval) \<Rightarrow> log_args" where
  "info_args message exc_info kwargs =
    \<lparr>la_level = INFO, la_message = message, la_stacklevel = Some 3,
     la_exc_info = Some (arg_or False exc_info), la_kwargs = kwargs\<rparr>"

definition info ::
  "facade \<Rightarrow> string \<Rightarrow> bool option \<Rightarrow> (string \<rightharpoonup> pyval) \<Rightarrow> pyexc option \<Rightarrow> unit outcome \<times> facade" where
  "info st message exc_info kwargs sys_exc_info =
    call_log st (info_args message exc_info kwargs) sys_exc_info"

definition warning_args :: "string \<Rightarrow> bool option \<Rightarrow> (string \<rightharpoonup> pyval) \<Rightarrow> log_args" where
  "warning_args message exc_info kwargs =
    \<lparr>la_level = WARNING, la_message = message, la_stacklevel = Some 3,
     la_exc_info = Some (arg_or False exc_info), la_kwargs = kwargs\<rparr>"

definition warning ::
  "facade \<Rightarrow> string \<Rightarrow> bool option \<Rightarrow> (string \<rightharpoonup> pyval) \<Rightarrow> pyexc option \<Rightarrow> unit outcome \<times> facade" where
  "warning st message exc_info kwargs sys_exc_info =
    call_log st (warning_args message exc_info kwargs) sys_exc_info"

definition warn_args :: "string \<Rightarrow> bool option \<Rightarrow> (string \<rightharpoonup> pyval) \<Rightarrow> log_args" where
  "warn_args message exc_info kwargs =
    \<lparr>la_level = WARNING, la_message = message, la_stacklevel = Some 3,
     la_exc_info = Some (arg_or False exc_info), la_kwargs = kwargs\<rparr>"

definition warn ::
  "facade \<Rightarrow> string \<Rightarrow> bool option \<Rightarrow> (string \<rightharpoonup> pyval) \<Rightarrow> pyexc option \<Rightarrow> unit outcome \<times> facade" where
  "warn st message exc_info kwargs sys_exc_info =
    call_log st (warn_args message exc_info kwargs) sys_exc_info"

definition error_args :: "string \<Rightarrow> bool option \<Rightarrow> (string \<rightharpoonup> pyval) \<Rightarrow> log_args" where
  "error_args message exc_info kwargs =
    \<lparr>la_level = ERROR, la_message = message, la_stacklevel = Some 3,
     la_exc_info = Some (arg_or True exc_info), la_kwargs = kwargs\<rparr>"

definition error ::
  "facade \<Rightarrow> string \<Rightarrow> bool option \<Rightarrow> (string \<rightharpoonup> pyval) \<Rightarrow> pyexc option \<Rightarrow> unit outcome \<times> facade" where
  "error st message exc_info kwargs sys_exc_info =
    call_log st (error_args message exc_info kwargs) sys_exc_info"

definition critical_args :: "string \<Rightarrow> bool option \<Rightarrow> (string \<rightharpoonup> pyval) \<Rightarrow> log_args" where
  "critical_args message exc_info kwargs =
    \<lparr>la_level = CRITICAL, la_message = message, la_stacklevel = Some 3,
     la_exc_info = Some (arg_or True exc_info), la_kwargs = kwargs\<rparr>"

definition critical ::
  "facade \<Rightarrow> string \<Rightarrow> bool option \<Rightarrow> (string \<rightharpoonup> pyval) \<Rightarrow> pyexc option \<Rightarrow> unit outcome \<times> facade" where
  "critical st message exc_info kwargs sys_exc_info =
    call_log st (critical_args message exc_info kwargs) sys_exc_info"

definition exception_args :: "string \<Rightarrow> (string \<rightharpoonup> pyval) \<Rightarrow> log_args" where
  "exception_args message kwargs =
    \<lparr>la_level = ERROR, la_message = message, la_stacklevel = Some 3,
     la_exc_info = Some True, la_kwargs = kwargs\<rparr>"

definition exception ::
  "facade \<Rightarrow> string \<Rightarrow> (string \<rightharpoonup> pyval) \<Rightarrow> pyexc option \<Rightarrow> unit outcome \<times> facade" where
  "exception st message kwargs sys_exc_info =
    call_log st (exception_args message kwargs) sys_exc_info"

text \<open>The last call made on the logger of the facade, if any, and its \<open>extra\<close> fields.\<close>

definition last_call :: "facade \<Rightarrow> log_call option" where
  "last_call st =
    (case logger st of
       None \<Rightarrow> None
     | Some l \<Rightarrow> (if lg_calls l = [] then None else Some (last (lg_calls l))))"


section \<open>SpanManager: \<open>start_span\<close>, \<open>span\<close>, \<open>set_span_attribute\<close>\<close>

text \<open>
  A span of the tracing library is kept as the calls made on it, oldest first.
  \<open>span_state\<close> replays them as the library's span does: \<open>end()\<close> ends the span, and
  \<open>set_status\<close> is ignored on an ended span, when the status is already \<open>OK\<close>, and for
  \<open>UNSET\<close>. The state is whether the span has ended and its status; \<open>is_recording\<close> holds
  until the span has ended, \<open>final_status\<close> is the status the span ends up with, and
  \<open>end_count\<close> the number of \<open>end()\<close> calls.
\<close>

datatype status = Unset | Ok | Error string

datatype span_call = SetAttribute string pyval | RecordException pyexc | SetStatus status | End

record span =
  sp_name :: string
  sp_kwargs :: "string \<rightharpoonup> pyval"
  sp_calls :: "span_call list"

definition span_step :: "span_call \<Rightarrow> bool \<times> status \<Rightarrow> bool \<times> status" where
  "span_step c s =
    (case c of
       End \<Rightarrow> (True, snd s)
     | SetStatus u \<Rightarrow> (if fst s \<or> snd s = Ok \<or> u = Unset then s else (fst s, u))
     | SetAttribute k v \<Rightarrow> s
     | RecordException e \<Rightarrow> s)"

definition span_state :: "span \<Rightarrow> bool \<times> status" where
  "span_state s = fold span_step (sp_calls s) (False, Unset)"

definition is_recording :: "span \<Rightarrow> bool" where
  "is_recording s = (fst (span_state s) = False)"

definition final_status :: "span \<Rightarrow> status" where
  "final_status s = snd (span_state s)"

definition end_count :: "span \<Rightarrow> nat" where
  "end_count s = length (filter (\<lambda>c. c = End) (sp_calls s))"

definition start_span :: "facade \<Rightarrow> string \<Rightarrow> (string \<rightharpoonup> pyval) \<Rightarrow> span outcome" where
  "start_span st name kwargs =
    (case tracer st of
       None \<Rightarrow> Raise not_initialized
     | Some t \<Rightarrow> Return \<lparr>sp_name = name, sp_kwargs = kwargs, sp_calls = []\<rparr>)"

text \<open>
  \<open>with trace.use_span(span, end_on_exit=True): yield span\<close>, the library's context manager
  with its defaults \<open>record_exception=True\<close> and \<open>set_status_on_exception=True\<close>: the block of
  the caller runs with the span (it may call the span, and returns or raises); when it
  raises an \<open>Exception\<close> and the span is still recording, the library records the exception
  on the span and sets the status \<open>ERROR\<close> with the description \<open>"<class name>: <str(e)>"\<close>;
  on the way out the span is ended, whichever way the block left, and what the block raised
  is raised again.
\<close>

definition exception_status :: "pyexc \<Rightarrow> status" where
  "exception_status e = Error (exc_name e @ '': '' @ exc_str e)"

definition use_span :: "span \<Rightarrow> (span \<Rightarrow> span \<times> 'a outcome) \<Rightarrow> span \<times> 'a outcome" where
  "use_span sp body =
    (let (sp1, r) = body sp;
         sp2 = (case r of
                  Raise e \<Rightarrow>
                    if is_Exception e \<and> is_recording sp1
                    then sp1\<lparr>sp_calls := sp_calls sp1 @ [RecordException e, SetStatus (exception_status e)]\<rparr>
                    else sp1
                | Return v \<Rightarrow> sp1)
     in (sp2\<lparr>sp_calls := sp_calls sp2 @ [End]\<rparr>, r))"

text \<open>
  The context manager \<open>span(name, **kwargs)\<close> around a block: the span as it is afterwards
  (none when \<open>start_span\<close> raised, and the block never ran) and how the \<open>with\<close> statement
  left.
\<close>

definition span ::
  "facade \<Rightarrow> string \<Rightarrow> (string \<rightharpoonup> pyval) \<Rightarrow> (span \<Rightarrow> span \<times> 'a outcome) \<Rightarrow> span option \<times> 'a outcome" where
  "span st name kwargs body =
    (case start_span st name kwargs of
       Raise e \<Rightarrow> (None, Raise e)
     | Return sp \<Rightarrow>
        (case use_span sp body of
           (sp1, Raise e) \<Rightarrow>
             if is_Exception e
             then (Some (sp1\<lparr>sp_calls := sp_calls sp1 @ [SetStatus (Error (exc_str e))]\<rparr>), Raise e)
             else (Some sp1, Raise e)
         | (sp1, Return v) \<Rightarrow> (Some sp1, Return v)))"


section \<open>Teardown: \<open>LogzAI.shutdown\<close>\<close>

text \<open>
  \<open>provider.shutdown()\<close> is the library's: \<open>result\<close> is what the call does, \<open>None\<close> when it
  returns and \<open>Some e\<close> when it raises \<open>e\<close>. The call is counted on the provider.
\<close>

definition provider_shutdown :: "pyexc option \<Rightarrow> provider \<Rightarrow> unit outcome \<times> provider" where
  "provider_shutdown result p =
    ((case result of None \<Rightarrow> Return () | Some e \<Rightarrow> Raise e),
     p\<lparr>prov_shutdown_calls := Suc (prov_shutdown_calls p)\<rparr>)"

text \<open>\<open>try: provider.shutdown()  except Exception: pass\<close>\<close>

definition try_shutdown :: "pyexc option \<Rightarrow> provider \<Rightarrow> unit outcome \<times> provider" where
  "try_shutdown result p =
    (case provider_shutdown result p of
       (Raise e, p1) \<Rightarrow> if is_Exception e then (Return (), p1) else (Raise e, p1)
     | (Return u, p1) \<Rightarrow> (Return (), p1))"

definition shutdown :: "pyexc option \<Rightarrow> pyexc option \<Rightarrow> facade \<Rightarrow> unit outcome \<times> facade" where
  "shutdown log_result trace_result st =
    (let (r1, st1) =
           (case log_provider st of
              None \<Rightarrow> (Return (), st)
            | Some p \<Rightarrow> (let (r, p1) = try_shutdown log_result p
                         in (r, st\<lparr>log_provider := Some p1\<rparr>)))
     in case r1 of
          Raise e \<Rightarrow> (Raise e, st1)
        | Return u \<Rightarrow>
           (case tracer_provider st1 of
              None \<Rightarrow> (Return (), st1)
            | Some p \<Rightarrow> (let (r, p1) = try_shutdown trace_result p
                         in (r, st1\<lparr>tracer_provider := Some p1\<rparr>))))"

text \<open>
  What \<open>init\<close> configures and the later operations read: the console flag, the providers
  without their call counters, the logger without its calls, the tracer.
\<close>

definition pipeline_config ::
  "facade \<Rightarrow> bool \<times> ((string \<times> string) list \<times> exporter list) option
     \<times> ((string \<times> string) list \<times> exporter list) option
     \<times> (int \<times> handler list \<times> bool) option \<times> tracer option" where
  "pipeline_config st =
    (mirror_to_console st,
     map_option (\<lambda>p. (prov_resource p, prov_processors p)) (log_provider st),
     map_option (\<lambda>p. (prov_resource p, prov_processors p)) (tracer_provider st),
     map_option (\<lambda>l. (lg_level l, lg_handlers l, lg_propagate l)) (logger st),
     tracer st)"

section \<open>PluginRegistry\<close>

text \<open>
  The sources hold the callers of \<open>plugin\<close> and \<open>unregister_plugin\<close> (the example
  programs) and not the registry itself, so the registry is modelled from its specification.

  A cleanup callback is a function object: its identity and what calling it does to the
  state the plugin hooked into (the new state, and the exception it raised, if any). An
  installer is called with that state and the configuration value; it returns a cleanup
  callback, or \<open>None\<close> for "no cleanup needed", or raises. The registry keeps its entries in
  registration order, the state the plugins act on, and the identities of the cleanup
  callbacks invoked so far, oldest first.
\<close>

datatype 'h cleanup = Cleanup (cid: nat) (run: "'h \<Rightarrow> 'h \<times> pyexc option")

type_synonym ('c, 'h) installer = "'h \<Rightarrow> 'c \<Rightarrow> 'h \<times> 'h cleanup option outcome"

record 'h registry =
  entries :: "(string \<times> 'h cleanup option) list"
  host :: 'h
  invoked :: "nat list"

text \<open>
  Modelled from the spec: \<open>invoke\<close>, the call of a stored cleanup callback by the missing
  registry; a failure of the callback is swallowed.
\<close>

definition invoke :: "'h cleanup option \<Rightarrow> 'h registry \<Rightarrow> 'h registry" where
  "invoke c r =
    (case c of
       None \<Rightarrow> r
     | Some C \<Rightarrow> r\<lparr>host := fst (run C (host r)), invoked := invoked r @ [cid C]\<rparr>)"

text \<open>
  Modelled from the spec: \<open>unregister_plugin(name)\<close>, missing from the sources: "if present,
  invokes the stored cleanup, then removes the entry; if absent, this is a no-op (not an
  error)".
\<close>

definition unregister_plugin :: "string \<Rightarrow> 'h registry \<Rightarrow> unit outcome \<times> 'h registry" where
  "unregister_plugin name r =
    (case map_of (entries r) name of
       None \<Rightarrow> (Return (), r)
     | Some c \<Rightarrow>
        (let r1 = invoke c r
         in (Return (), r1\<lparr>entries := filter (\<lambda>(n, c). n \<noteq> name) (entries r1)\<rparr>)))"

text \<open>
  Modelled from the spec: \<open>plugin(name, installer, config)\<close>, missing from the sources:
  "re-registration under an existing name must first run that name's existing cleanup before
  running the new installer"; the installer is invoked with the instance and the
  configuration value, and the registry stores the cleanup it returns; an installer that
  raises propagates to the caller and no entry is stored.
\<close>

definition plugin ::
  "string \<Rightarrow> ('c, 'h) installer \<Rightarrow> 'c \<Rightarrow> 'h registry \<Rightarrow> unit outcome \<times> 'h registry" where
  "plugin name installer config r =
    (let r1 = snd (unregister_plugin name r);
         (h, res) = installer (host r1) config
     in case res of
          Raise e \<Rightarrow> (Raise e, r1\<lparr>host := h\<rparr>)
        | Return c \<Rightarrow> (Return (), r1\<lparr>host := h, entries := entries r1 @ [(name, c)]\<rparr>))"

text \<open>The identities of the cleanup callbacks stored in a list of entries, in order.\<close>

definition cleanup_ids :: "(string \<times> 'h cleanup option) list \<Rightarrow> nat list" where
  "cleanup_ids es = concat (map (\<lambda>(n, c). case c of None \<Rightarrow> [] | Some C \<Rightarrow> [cid C]) es)"

text \<open>
  Modelled from the spec: the first step of \<open>shutdown()\<close> that the \<open>shutdown\<close> of the sources
  does not have: it "iterates every still-registered plugin in registration order, invoking
  each cleanup, swallowing any individual cleanup failure"; the entries are destroyed.
\<close>

definition shutdown_plugins :: "'h registry \<Rightarrow> 'h registry" where
  "shutdown_plugins r = (fold (\<lambda>(n, c). invoke c) (entries r) r)\<lparr>entries := []\<rparr>"

text \<open>
  Modelled from the spec: \<open>shutdown()\<close> on the broader facade, the plugin drain followed by
  the \<open>shutdown\<close> of the sources.
\<close>

definition shutdown_facade ::
  "pyexc option \<Rightarrow> pyexc option \<Rightarrow> 'h registry \<times> facade \<Rightarrow> unit outcome \<times> 'h registry \<times> facade" where
  "shutdown_facade log_result trace_result rs =
    (let r1 = shutdown_plugins (fst rs);
         (res, st1) = shutdown log_result trace_result (snd rs)
     in (res, r1, st1))"

definition empty_registry :: "'a multiset registry" where
  "empty_registry = \<lparr>entries = [], host = {#}, invoked = []\<rparr>"

text \<open>
  Plugins that keep the lifecycle contract, acting on the multiset of installed hooks: the
  installer adds the hooks \<open>H\<close> of the plugin and returns the cleanup callback \<open>i\<close> that takes
  them out again.
\<close>

definition hook_cleanup :: "nat \<Rightarrow> 'a list \<Rightarrow> 'a multiset cleanup" where
  "hook_cleanup i H = Cleanup i (\<lambda>h. (h - mset H, None))"

definition hook_installer :: "nat \<Rightarrow> 'a list \<Rightarrow> (unit, 'a multiset) installer" where
  "hook_installer i H = (\<lambda>h config. (h + mset H, Return (Some (hook_cleanup i H))))"

text \<open>A sequence of registry calls, and the registry after making them in order.\<close>

datatype 'a reg_call = Register string nat "'a list" | Unregister string

definition apply_call :: "'a reg_call \<Rightarrow> 'a multiset registry \<Rightarrow> 'a multiset registry" where
  "apply_call c r =
    (case c of
       Register name i H \<Rightarrow> snd (plugin name (hook_installer i H) () r)
     | Unregister name \<Rightarrow> snd (unregister_plugin name r))"

definition run_calls :: "'a reg_call list \<Rightarrow> 'a multiset registry \<Rightarrow> 'a multiset registry" where
  "run_calls cs r = fold apply_call cs r"

text \<open>
  The plugin currently registered under each name, read off the sequence of calls alone:
  the last registration of the name that no later \<open>unregister_plugin\<close> of it follows. Kept
  with the cleanup identity and the hooks of that plugin, in registration order.
\<close>

definition track ::
  "'a reg_call \<Rightarrow> (string \<times> nat \<times> 'a list) list \<Rightarrow> (string \<times> nat \<times> 'a list) list" where
  "track c cur =
    (case c of
       Register name i H \<Rightarrow> filter (\<lambda>(n, x). n \<noteq> name) cur @ [(name, i, H)]
     | Unregister name \<Rightarrow> filter (\<lambda>(n, x). n \<noteq> name) cur)"

definition current :: "'a reg_call list \<Rightarrow> (string \<times> nat \<times> 'a list) list" where
  "current cs = fold track cs []"

definition hooks_of :: "(string \<times> nat \<times> 'a list) list \<Rightarrow> 'a multiset" where
  "hooks_of cur = sum_list (map (\<lambda>(n, i, H). mset H) cur)"

text \<open>
  The entries a registry holds when the plugins of \<open>cur\<close> are the registered ones, and the
  registry being in step with \<open>cur\<close>: it holds those entries, under distinct names, and the
  installed hooks are the hooks of those plugins.
\<close>

definition stored :: "(string \<times> nat \<times> 'a list) list \<Rightarrow> (string \<times> 'a multiset cleanup option) list" where
  "stored cur = map (\<lambda>(n, i, H). (n, Some (hook_cleanup i H))) cur"

definition consistent :: "'a multiset registry \<Rightarrow> (string \<times> nat \<times> 'a list) list \<Rightarrow> bool" where
  "consistent r cur \<longleftrightarrow> entries r = stored cur \<and> distinct (map fst cur) \<and> host r = hooks_of cur"

section \<open>Lemmas on the string operations\<close>

lemma rstrip_slash_decomp:
  "\<exists>n. s = rstrip_slash s @ replicate n CHR ''/''"
proof -
  have "rev s = takeWhile (\<lambda>c. c = CHR ''/'') (rev s) @ dropWhile (\<lambda>c. c = CHR ''/'') (rev s)"
    by simp
  moreover have "takeWhile (\<lambda>c. c = CHR ''/'') (rev s)
      = replicate (length (takeWhile (\<lambda>c. c = CHR ''/'') (rev s))) CHR ''/''"
    by (rule replicate_length_same [symmetric]) (auto dest: set_takeWhileD)
  ultimately have "rev s = replicate (length (takeWhile (\<lambda>c. c = CHR ''/'') (rev s))) CHR ''/''
      @ dropWhile (\<lambda>c. c = CHR ''/'') (rev s)"
    by simp
  then have "rev (rev s) = rev (replicate (length (takeWhile (\<lambda>c. c = CHR ''/'') (rev s))) CHR ''/''
      @ dropWhile (\<lambda>c. c = CHR ''/'') (rev s))"
    by simp
  then have "s = rstrip_slash s @ replicate (length (takeWhile (\<lambda>c. c = CHR ''/'') (rev s))) CHR ''/''"
    by (simp add: rstrip_slash_def)
  then show ?thesis ..
qed

lemma rstrip_slash_no_trailing: "ends_with_slash (rstrip_slash s) = False"
proof (cases "dropWhile (\<lambda>c. c = CHR ''/'') (rev s)")
  case Nil
  have "ends_with_slash (rev []) = False" by (simp add: ends_with_slash_def)
  then show ?thesis unfolding rstrip_slash_def Nil .
next
  case (Cons c cs)
  then have "c \<noteq> CHR ''/''"
    using hd_dropWhile [of "\<lambda>c. c = CHR ''/''" "rev s"] by force
  with Cons show ?thesis by (simp add: ends_with_slash_def rstrip_slash_def)
qed

lemma of_char_lower_char:
  "(of_char (lower_char c) :: nat) =
    (if (65 \<le> (of_char c :: nat) \<and> (of_char c :: nat) \<le> 90)
        \<or> (192 \<le> (of_char c :: nat) \<and> (of_char c :: nat) \<le> 222 \<and> (of_char c :: nat) \<noteq> 215)
     then of_char c + 32 else of_char c)"
  by (simp add: lower_char_def Let_def)

lemma char_eq_nat: "c = d \<longleftrightarrow> (of_char c :: nat) = of_char d"
  by simp

lemma lower_char_g: "lower_char c = CHR ''g'' \<longleftrightarrow> c = CHR ''g'' \<or> c = CHR ''G''"
  unfolding char_eq_nat [of _ "CHR ''g''"] char_eq_nat [of _ "CHR ''G''"] of_char_lower_char
  by (simp split: if_splits) arith

lemma lower_char_r: "lower_char c = CHR ''r'' \<longleftrightarrow> c = CHR ''r'' \<or> c = CHR ''R''"
  unfolding char_eq_nat [of _ "CHR ''r''"] char_eq_nat [of _ "CHR ''R''"] of_char_lower_char
  by (simp split: if_splits) arith

lemma lower_char_p: "lower_char c = CHR ''p'' \<longleftrightarrow> c = CHR ''p'' \<or> c = CHR ''P''"
  unfolding char_eq_nat [of _ "CHR ''p''"] char_eq_nat [of _ "CHR ''P''"] of_char_lower_char
  by (simp split: if_splits) arith

lemma lower_char_c: "lower_char c = CHR ''c'' \<longleftrightarrow> c = CHR ''c'' \<or> c = CHR ''C''"
  unfolding char_eq_nat [of _ "CHR ''c''"] char_eq_nat [of _ "CHR ''C''"] of_char_lower_char
  by (simp split: if_splits) arith

lemma map_eq_4:
  "map f p = [w, x, y, z] \<longleftrightarrow>
    (\<exists>a b c d. p = [a, b, c, d] \<and> f a = w \<and> f b = x \<and> f c = y \<and> f d = z)"
  by (auto simp: map_eq_Cons_conv)

lemma lower_grpc_iff:
  "lower p = ''grpc'' \<longleftrightarrow>
    (\<exists>a b c d. p = [a, b, c, d] \<and> (a = CHR ''g'' \<or> a = CHR ''G'') \<and> (b = CHR ''r'' \<or> b = CHR ''R'')
       \<and> (c = CHR ''p'' \<or> c = CHR ''P'') \<and> (d = CHR ''c'' \<or> d = CHR ''C''))"
  unfolding lower_def map_eq_4 lower_char_g lower_char_r lower_char_p lower_char_c ..

section \<open>The exporter factory\<close>

text \<open>
  Claim C7. For every base endpoint and either protocol, the endpoint of the log exporter
  is the base with all its trailing slashes stripped followed by \<open>/logs\<close>, and the endpoint
  of the trace exporter is the same stripped base followed by \<open>/traces\<close>: the base is a
  stem that does not end in a slash followed by some number of slashes, and the targets are
  that stem with the suffix. The base \<open>http://host:1234/\<close> with protocol \<open>http\<close> gives
  \<open>http://host:1234/logs\<close> and \<open>http://host:1234/traces\<close>.
\<close>

theorem export_targets:
  "(\<exists>stem n. endpoint = stem @ replicate n CHR ''/'' \<and> ends_with_slash stem = False
      \<and> exp_endpoint (make_log_exporter endpoint hdrs p) = stem @ ''/logs''
      \<and> exp_endpoint (make_trace_exporter endpoint hdrs p) = stem @ ''/traces'')
   \<and> exp_endpoint (make_log_exporter ''http://host:1234/'' hdrs ''http'') = ''http://host:1234/logs''
   \<and> exp_endpoint (make_trace_exporter ''http://host:1234/'' hdrs ''http'') = ''http://host:1234/traces''"
proof -
  obtain n where n: "endpoint = rstrip_slash endpoint @ replicate n CHR ''/''"
    using rstrip_slash_decomp by blast
  have l: "exp_endpoint (make_log_exporter endpoint hdrs p) = rstrip_slash endpoint @ ''/logs''"
    by (simp add: make_log_exporter_def Let_def)
  have t: "exp_endpoint (make_trace_exporter endpoint hdrs p) = rstrip_slash endpoint @ ''/traces''"
    by (simp add: make_trace_exporter_def Let_def)
  have general: "\<exists>stem n. endpoint = stem @ replicate n CHR ''/'' \<and> ends_with_slash stem = False
      \<and> exp_endpoint (make_log_exporter endpoint hdrs p) = stem @ ''/logs''
      \<and> exp_endpoint (make_trace_exporter endpoint hdrs p) = stem @ ''/traces''"
    using n l t rstrip_slash_no_trailing by blast
  have strip: "rstrip_slash ''http://host:1234/'' = ''http://host:1234''"
    by (simp add: rstrip_slash_def)
  have a: "exp_endpoint (make_log_exporter ''http://host:1234/'' hdrs ''http'') = ''http://host:1234/logs''"
    by (simp add: make_log_exporter_def Let_def strip)
  have b: "exp_endpoint (make_trace_exporter ''http://host:1234/'' hdrs ''http'') = ''http://host:1234/traces''"
    by (simp add: make_trace_exporter_def Let_def strip)
  from general a b show ?thesis by blast
qed

lemma init_returns: "fst (init st a) = Return ()"
  by (simp add: init_def Let_def)

lemma init_log_provider:
  "log_provider (snd (init st a)) =
    Some \<lparr>prov_resource = resource_attrs a,
          prov_processors = [make_log_exporter (ingest_endpoint a) (headers a) (protocol a)],
          prov_shutdown_calls = 0\<rparr>"
  by (simp add: init_def Let_def)

lemma init_tracer_provider:
  "tracer_provider (snd (init st a)) =
    Some \<lparr>prov_resource = resource_attrs a,
          prov_processors = [make_trace_exporter (ingest_endpoint a) (headers a) (protocol a)],
          prov_shutdown_calls = 0\<rparr>"
  by (simp add: init_def Let_def)

lemma tcp_not_grpc: "lower ''tcp'' \<noteq> ''grpc''"
  by (simp add: lower_grpc_iff)

text \<open>
  Claim C10. For every protocol string \<open>p\<close>, the factory and so \<open>init\<close> select the gRPC
  exporters exactly when the lowercase of \<open>p\<close> is \<open>grpc\<close>, that is when \<open>p\<close> is one of the
  sixteen spellings of \<open>grpc\<close> in upper and lower case; every other \<open>p\<close>, such as \<open>tcp\<close>,
  selects the HTTP exporters, and \<open>init\<close> returns without raising.
\<close>

theorem protocol_selection:
  "exp_transport (make_log_exporter e h p) = (if lower p = ''grpc'' then Grpc else Http)
   \<and> exp_transport (make_trace_exporter e h p) = (if lower p = ''grpc'' then Grpc else Http)
   \<and> (lower p = ''grpc'' \<longleftrightarrow>
        (\<exists>a b c d. p = [a, b, c, d] \<and> (a = CHR ''g'' \<or> a = CHR ''G'') \<and> (b = CHR ''r'' \<or> b = CHR ''R'')
           \<and> (c = CHR ''p'' \<or> c = CHR ''P'') \<and> (d = CHR ''c'' \<or> d = CHR ''C'')))
   \<and> fst (init st (args\<lparr>protocol := p\<rparr>)) = Return ()
   \<and> map_option (\<lambda>q. map exp_transport (prov_processors q)) (log_provider (snd (init st (args\<lparr>protocol := p\<rparr>))))
        = Some [if lower p = ''grpc'' then Grpc else Http]
   \<and> map_option (\<lambda>q. map exp_transport (prov_processors q)) (tracer_provider (snd (init st (args\<lparr>protocol := p\<rparr>))))
        = Some [if lower p = ''grpc'' then Grpc else Http]
   \<and> exp_transport (make_log_exporter e h ''tcp'') = Http
   \<and> exp_transport (make_trace_exporter e h ''tcp'') = Http
   \<and> exp_transport (make_log_exporter e h ''GRPC'') = Grpc"
proof -
  have l: "\<And>q. exp_transport (make_log_exporter e h q) = (if lower q = ''grpc'' then Grpc else Http)"
    by (simp add: make_log_exporter_def Let_def)
  have t: "\<And>q. exp_transport (make_trace_exporter e h q) = (if lower q = ''grpc'' then Grpc else Http)"
    by (simp add: make_trace_exporter_def Let_def)
  have l': "\<And>e h. exp_transport (make_log_exporter e h p) = (if lower p = ''grpc'' then Grpc else Http)"
    by (simp add: make_log_exporter_def Let_def)
  have t': "\<And>e h. exp_transport (make_trace_exporter e h p) = (if lower p = ''grpc'' then Grpc else Http)"
    by (simp add: make_trace_exporter_def Let_def)
  have G: "lower ''GRPC'' = ''grpc''" by (simp add: lower_grpc_iff)
  have i1: "map_option (\<lambda>q. map exp_transport (prov_processors q)) (log_provider (snd (init st (args\<lparr>protocol := p\<rparr>))))
        = Some [if lower p = ''grpc'' then Grpc else Http]"
    by (simp add: init_log_provider l' split del: if_split)
  have i2: "map_option (\<lambda>q. map exp_transport (prov_processors q)) (tracer_provider (snd (init st (args\<lparr>protocol := p\<rparr>))))
        = Some [if lower p = ''grpc'' then Grpc else Http]"
    by (simp add: init_tracer_provider t' split del: if_split)
  show ?thesis
    using l [of p] t [of p] l [of "''tcp''"] t [of "''tcp''"] l [of "''GRPC''"] G tcp_not_grpc
      lower_grpc_iff [of p] init_returns [of st "args\<lparr>protocol := p\<rparr>"] i1 i2
    by presburger
qed

section \<open>The log facade\<close>

lemma log_uninitialized: "logger st = None \<Longrightarrow> log st lvl m sl ei kw sx = (Raise not_initialized, st)"
  by (simp add: log_def)


lemma log_last_call:
  "logger st = Some l \<Longrightarrow>
    last_call (snd (log st lvl m sl ei kw sx)) =
      Some \<lparr>lc_level = lvl, lc_message = m,
            lc_extra = (case sx of None \<Rightarrow> kw | Some e \<Rightarrow> add_exception_fields e kw),
            lc_stacklevel = arg_or log_default_stacklevel sl,
            lc_exc_info = (case ei of None \<Rightarrow> False | Some b \<Rightarrow> b)\<rparr>"
  by (cases sx) (simp_all add: log_def Let_def last_call_def arg_or_def)

lemma log_last_stacklevel:
  "map_option lc_stacklevel (last_call (snd (log st lvl m sl ei kw sx))) =
    map_option (\<lambda>l. arg_or log_default_stacklevel sl) (logger st)"
proof (cases "logger st")
  case None
  then show ?thesis by (simp add: log_uninitialized last_call_def)
next
  case (Some l)
  then show ?thesis by (simp add: log_last_call)
qed



lemma log_config: "pipeline_config (snd (log st lvl m sl ei kw sx)) = pipeline_config st"
  by (cases "logger st") (simp_all add: log_def Let_def pipeline_config_def)

lemma debug_log:
  "debug st m ei kw sx = log st DEBUG m (Some 3) (Some (arg_or False ei)) kw sx"
  by (simp add: debug_def debug_args_def call_log_def)

lemma info_log:
  "info st m ei kw sx = log st INFO m (Some 3) (Some (arg_or False ei)) kw sx"
  by (simp add: info_def info_args_def call_log_def)

lemma warning_log:
  "warning st m ei kw sx = log st WARNING m (Some 3) (Some (arg_or False ei)) kw sx"
  by (simp add: warning_def warning_args_def call_log_def)

lemma warn_log:
  "warn st m ei kw sx = log st WARNING m (Some 3) (Some (arg_or False ei)) kw sx"
  by (simp add: warn_def warn_args_def call_log_def)

lemma error_log:
  "error st m ei kw sx = log st ERROR m (Some 3) (Some (arg_or True ei)) kw sx"
  by (simp add: error_def error_args_def call_log_def)

lemma critical_log:
  "critical st m ei kw sx = log st CRITICAL m (Some 3) (Some (arg_or True ei)) kw sx"
  by (simp add: critical_def critical_args_def call_log_def)

lemma exception_log:
  "exception st m kw sx = log st ERROR m (Some 3) (Some True) kw sx"
  by (simp add: exception_def exception_args_def call_log_def)




lemma init_tracer: "tracer (snd (init st a)) = Some \<lparr>tr_name = ''logzai''\<rparr>"
  by (simp add: init_def Let_def)




section \<open>Operations before \<open>init\<close>\<close>







section \<open>Initialisation\<close>

text \<open>
  Claim C9 as stated fails: \<open>init\<close> with an empty ingest token and an empty endpoint
  returns without raising.
\<close>

theorem init_accepts_empty:
  "fst (init new_facade ((default_args [])\<lparr>ingest_endpoint := []\<rparr>)) = Return ()"
  by (rule init_returns)

lemma try_shutdown_eq:
  "try_shutdown r p =
    ((case r of None \<Rightarrow> Return () | Some e \<Rightarrow> if is_Exception e then Return () else Raise e),
     p\<lparr>prov_shutdown_calls := Suc (prov_shutdown_calls p)\<rparr>)"
  by (cases r) (simp_all add: try_shutdown_def provider_shutdown_def)

lemma shutdown_config: "pipeline_config (snd (shutdown lr tr st)) = pipeline_config st"
  by (cases "log_provider st"; cases "tracer_provider st"; cases lr; cases tr)
     (simp_all add: shutdown_def pipeline_config_def try_shutdown_eq)

lemma init_headers_token: "headers a ! 0 = (''x-ingest-token'', ingest_token a)"
  by (simp add: headers_def)

text \<open>
  Claim C9, amended. \<open>init\<close> validates nothing: for every argument record, also one with
  an empty token or endpoint, it returns without raising and builds the exporters from the
  endpoint and the headers as given, the token being the first header; an empty endpoint
  gives the log target \<open>/logs\<close>. Afterwards \<open>log\<close>, the leveled wrappers and \<open>shutdown\<close>
  leave the pipeline configuration as it is (the span operations return no facade).
\<close>

theorem init_no_validation:
  "fst (init st a) = Return ()
   \<and> map_option prov_processors (log_provider (snd (init st a)))
       = Some [make_log_exporter (ingest_endpoint a) (headers a) (protocol a)]
   \<and> map_option prov_processors (tracer_provider (snd (init st a)))
       = Some [make_trace_exporter (ingest_endpoint a) (headers a) (protocol a)]
   \<and> hd (headers a) = (''x-ingest-token'', ingest_token a)
   \<and> exp_endpoint (make_log_exporter [] (headers (default_args [])) ''http'') = ''/logs''
   \<and> pipeline_config (snd (log st lvl m sl ei kw sx)) = pipeline_config st
   \<and> pipeline_config (snd (debug st m ei kw sx)) = pipeline_config st
   \<and> pipeline_config (snd (info st m ei kw sx)) = pipeline_config st
   \<and> pipeline_config (snd (warning st m ei kw sx)) = pipeline_config st
   \<and> pipeline_config (snd (warn st m ei kw sx)) = pipeline_config st
   \<and> pipeline_config (snd (error st m ei kw sx)) = pipeline_config st
   \<and> pipeline_config (snd (critical st m ei kw sx)) = pipeline_config st
   \<and> pipeline_config (snd (exception st m kw sx)) = pipeline_config st
   \<and> pipeline_config (snd (shutdown lr tr st)) = pipeline_config st"
proof -
  have e: "exp_endpoint (make_log_exporter [] (headers (default_args [])) ''http'') = ''/logs''"
    by (simp add: make_log_exporter_def Let_def rstrip_slash_def)
  have h: "hd (headers a) = (''x-ingest-token'', ingest_token a)"
    by (simp add: headers_def)
  show ?thesis
    unfolding debug_log info_log warning_log warn_log error_log critical_log exception_log
    by (simp add: init_returns init_log_provider init_tracer_provider e h log_config shutdown_config)
qed

section \<open>The scoped span helper\<close>

lemma span_state_append:
  "span_state (sp\<lparr>sp_calls := sp_calls sp @ cs\<rparr>) = fold span_step cs (span_state sp)"
  by (simp add: span_state_def)

lemma end_count_append:
  "end_count (sp\<lparr>sp_calls := sp_calls sp @ cs\<rparr>) = end_count sp + length (filter (\<lambda>c. c = End) cs)"
  by (simp add: end_count_def)

text \<open>A status set on a span that has ended does not change the status of the span.\<close>

lemma set_status_after_end:
  "final_status (sp\<lparr>sp_calls := sp_calls sp @ [End, SetStatus t]\<rparr>)
    = final_status (sp\<lparr>sp_calls := sp_calls sp @ [End]\<rparr>)"
  by (simp add: final_status_def span_state_append span_step_def)

lemma span_initialized:
  assumes "tracer st = Some t"
    and "body \<lparr>sp_name = name, sp_kwargs = kw, sp_calls = []\<rparr> = (sp1, r)"
  shows "span st name kw body =
    (case r of
       Raise e \<Rightarrow>
         (Some (if is_Exception e
                then (if is_recording sp1
                      then sp1\<lparr>sp_calls := sp_calls sp1
                             @ [RecordException e, SetStatus (exception_status e), End,
                                SetStatus (Error (exc_str e))]\<rparr>
                      else sp1\<lparr>sp_calls := sp_calls sp1 @ [End, SetStatus (Error (exc_str e))]\<rparr>)
                else sp1\<lparr>sp_calls := sp_calls sp1 @ [End]\<rparr>), Raise e)
     | Return v \<Rightarrow> (Some (sp1\<lparr>sp_calls := sp_calls sp1 @ [End]\<rparr>), Return v))"
  using assms by (cases r) (simp_all add: span_def start_span_def use_span_def)

text \<open>
  On an initialised facade the helper ends the span exactly once (one \<open>end()\<close> more than
  the block itself made) and leaves the \<open>with\<close> statement the way the block left it: the
  value is returned, the exception is raised again.
\<close>

lemma span_ends_once:
  assumes "tracer st = Some t"
    and "body \<lparr>sp_name = name, sp_kwargs = kw, sp_calls = []\<rparr> = (sp1, r)"
  shows "\<exists>sp2. span st name kw body = (Some sp2, r) \<and> end_count sp2 = Suc (end_count sp1)"
proof (cases r)
  case (Return v)
  then show ?thesis
    using span_initialized [of st t body name kw sp1 r] assms
    by (simp add: end_count_append)
next
  case (Raise e)
  then show ?thesis
    using span_initialized [of st t body name kw sp1 r] assms
    by (simp add: end_count_append)
qed

text \<open>
  When the block raises an \<open>Exception\<close>, the status the helper sets at the end comes after
  the span has been ended and changes nothing: the span keeps the status it had when
  \<open>use_span\<close> ended it. For a block that left the span recording with a status other than
  \<open>OK\<close>, that is the library's \<open>ERROR\<close> status with the description
  \<open>"<class name>: <str(e)>"\<close>.
\<close>

lemma span_helper_status_ignored:
  assumes "tracer st = Some t"
    and "body \<lparr>sp_name = name, sp_kwargs = kw, sp_calls = []\<rparr> = (sp1, Raise e)"
    and "is_Exception e"
  shows "map_option final_status (fst (span st name kw body))
    = Some (final_status (fst (use_span \<lparr>sp_name = name, sp_kwargs = kw, sp_calls = []\<rparr> body)))"
proof (cases "is_recording sp1")
  case True
  have "final_status (sp1\<lparr>sp_calls := sp_calls sp1
          @ [RecordException e, SetStatus (exception_status e), End, SetStatus (Error (exc_str e))]\<rparr>)
      = final_status (sp1\<lparr>sp_calls := sp_calls sp1
          @ [RecordException e, SetStatus (exception_status e), End]\<rparr>)"
    by (simp add: final_status_def span_state_append span_step_def)
  then show ?thesis
    using span_initialized [of st t body name kw sp1 "Raise e"] assms True
    by (simp add: use_span_def)
next
  case False
  then show ?thesis
    using span_initialized [of st t body name kw sp1 "Raise e"] assms set_status_after_end [of sp1]
    by (simp add: use_span_def)
qed

lemma span_library_status:
  assumes "tracer st = Some t"
    and "body \<lparr>sp_name = name, sp_kwargs = kw, sp_calls = []\<rparr> = (sp1, Raise e)"
    and "is_Exception e" and "is_recording sp1" and "final_status sp1 = Unset \<or> (\<exists>d. final_status sp1 = Error d)"
  shows "map_option final_status (fst (span st name kw body)) = Some (exception_status e)"
proof -
  have r: "fst (span_state sp1) = False"
    using assms(4) by (simp add: is_recording_def)
  have ok: "snd (span_state sp1) \<noteq> Ok"
    using assms(5) by (auto simp: final_status_def)
  obtain b u where bu: "span_state sp1 = (b, u)" by (cases "span_state sp1")
  have "final_status (sp1\<lparr>sp_calls := sp_calls sp1
          @ [RecordException e, SetStatus (exception_status e), End, SetStatus (Error (exc_str e))]\<rparr>)
      = exception_status e"
    using r ok bu
    by (simp add: final_status_def span_state_append span_step_def exception_status_def)
  then show ?thesis
    using span_initialized [of st t body name kw sp1 "Raise e"] assms(1-4) by simp
qed

text \<open>
  An exception outside \<open>Exception\<close> (such as \<open>KeyboardInterrupt\<close>) passes the handlers of the
  library and of the helper: the span is ended once and the exception propagates, with no
  status set.
\<close>

lemma span_base_exception:
  assumes "tracer st = Some t"
    and "body \<lparr>sp_name = name, sp_kwargs = kw, sp_calls = []\<rparr> = (sp1, Raise e)"
    and "is_Exception e = False"
  shows "span st name kw body = (Some (sp1\<lparr>sp_calls := sp_calls sp1 @ [End]\<rparr>), Raise e)"
  using span_initialized [of st t body name kw sp1 "Raise e"] assms by simp

text \<open>
  Claim C4 at a block that raises \<open>ValueError("boom")\<close> on an initialised facade. The helper
  ends the span exactly once and the \<open>ValueError\<close> propagates, as the claim says. The calls on
  the span are: the library's \<open>record_exception\<close> and \<open>set_status\<close> with the description
  \<open>"ValueError: boom"\<close>, the \<open>end()\<close>, and only then the \<open>set_status\<close> of the helper with
  \<open>str(e)\<close>, which an ended span ignores. The final status is the error status with the
  description \<open>"ValueError: boom"\<close>, not the one carrying \<open>str(e) = "boom"\<close> that the helper
  sets and the claim states.
\<close>

theorem span_status_set_after_end:
  "map_option sp_calls (fst (span (snd (init new_facade (default_args ''token''))) ''work'' Map.empty
        (\<lambda>s. (s, Raise (PyExc ''ValueError'' ''boom'' ''Traceback'' True) :: unit outcome))))
     = Some [RecordException (PyExc ''ValueError'' ''boom'' ''Traceback'' True),
             SetStatus (Error ''ValueError: boom''), End, SetStatus (Error ''boom'')]
   \<and> map_option final_status (fst (span (snd (init new_facade (default_args ''token''))) ''work'' Map.empty
        (\<lambda>s. (s, Raise (PyExc ''ValueError'' ''boom'' ''Traceback'' True) :: unit outcome))))
     = Some (Error ''ValueError: boom'')
   \<and> map_option end_count (fst (span (snd (init new_facade (default_args ''token''))) ''work'' Map.empty
        (\<lambda>s. (s, Raise (PyExc ''ValueError'' ''boom'' ''Traceback'' True) :: unit outcome))))
     = Some 1
   \<and> snd (span (snd (init new_facade (default_args ''token''))) ''work'' Map.empty
        (\<lambda>s. (s, Raise (PyExc ''ValueError'' ''boom'' ''Traceback'' True) :: unit outcome)))
     = Raise (PyExc ''ValueError'' ''boom'' ''Traceback'' True)"
proof -
  have t: "tracer (snd (init new_facade (default_args ''token''))) = Some \<lparr>tr_name = ''logzai''\<rparr>"
    by (rule init_tracer)
  have rec: "is_recording \<lparr>sp_name = ''work'', sp_kwargs = Map.empty, sp_calls = []\<rparr>"
    by (simp add: is_recording_def span_state_def)
  have sp: "span (snd (init new_facade (default_args ''token''))) ''work'' Map.empty
        (\<lambda>s. (s, Raise (PyExc ''ValueError'' ''boom'' ''Traceback'' True) :: unit outcome))
      = (Some \<lparr>sp_name = ''work'', sp_kwargs = Map.empty,
               sp_calls = [RecordException (PyExc ''ValueError'' ''boom'' ''Traceback'' True),
                           SetStatus (Error ''ValueError: boom''), End, SetStatus (Error ''boom'')]\<rparr>,
         Raise (PyExc ''ValueError'' ''boom'' ''Traceback'' True))"
    using span_initialized [of "snd (init new_facade (default_args ''token''))" "\<lparr>tr_name = ''logzai''\<rparr>"
        "\<lambda>s. (s, Raise (PyExc ''ValueError'' ''boom'' ''Traceback'' True) :: unit outcome)"
        "''work''" Map.empty "\<lparr>sp_name = ''work'', sp_kwargs = Map.empty, sp_calls = []\<rparr>"
        "Raise (PyExc ''ValueError'' ''boom'' ''Traceback'' True)"] t rec
    by (simp add: exception_status_def)
  show ?thesis
    unfolding sp
    by (simp add: final_status_def span_state_def span_step_def end_count_def)
qed

section \<open>The plugin registry\<close>

lemma map_of_filter_name: "map_of (filter (\<lambda>(n, c). n \<noteq> name) es) name = None"
  by (induction es) auto

lemma unregister_returns: "fst (unregister_plugin name r) = Return ()"
  by (simp add: unregister_plugin_def Let_def split: option.splits)

lemma unregister_absent:
  "map_of (entries r) name = None \<Longrightarrow> unregister_plugin name r = (Return (), r)"
  by (simp add: unregister_plugin_def)

lemma unregister_present:
  "map_of (entries r) name = Some c \<Longrightarrow>
    snd (unregister_plugin name r) =
      (invoke c r)\<lparr>entries := filter (\<lambda>(n, c). n \<noteq> name) (entries r)\<rparr>"
  by (cases c) (simp_all add: unregister_plugin_def Let_def invoke_def)

lemma unregister_removes: "map_of (entries (snd (unregister_plugin name r))) name = None"
proof (cases "map_of (entries r) name")
  case None
  then show ?thesis by (simp add: unregister_absent)
next
  case (Some c)
  then show ?thesis by (simp add: unregister_present map_of_filter_name)
qed

lemma plugin_installed:
  assumes "installer (host (snd (unregister_plugin name r))) config = (h, Return c)"
  shows "plugin name installer config r =
    (Return (), (snd (unregister_plugin name r))
       \<lparr>host := h, entries := entries (snd (unregister_plugin name r)) @ [(name, c)]\<rparr>)"
  using assms by (simp add: plugin_def Let_def)

lemma map_of_append_absent: "map_of xs k = None \<Longrightarrow> map_of (xs @ [(k, v)]) k = Some v"
  by (simp add: map_add_def)

text \<open>
  Claim C1. For every name \<open>p\<close> registered through \<open>plugin(p, installer, config)\<close> whose
  installer returned the cleanup callback \<open>C\<close>: the entry of \<open>p\<close> holds \<open>C\<close>; the first
  \<open>unregister_plugin(p)\<close> returns, invokes \<open>C\<close> once (one invocation of \<open>C\<close> is added to the
  invocations, and the state is the one \<open>C\<close> leaves) and removes the entry; a second
  \<open>unregister_plugin(p)\<close> returns and changes nothing. \<open>unregister_plugin\<close> never raises, and
  on a name without entry it changes nothing.
\<close>

theorem unregister_once:
  assumes "\<forall>h. snd (installer h config) = Return (Some C)"
  shows "fst (plugin p installer config r) = Return ()
    \<and> map_of (entries (snd (plugin p installer config r))) p = Some (Some C)
    \<and> fst (unregister_plugin p (snd (plugin p installer config r))) = Return ()
    \<and> invoked (snd (unregister_plugin p (snd (plugin p installer config r))))
        = invoked (snd (plugin p installer config r)) @ [cid C]
    \<and> host (snd (unregister_plugin p (snd (plugin p installer config r))))
        = fst (run C (host (snd (plugin p installer config r))))
    \<and> map_of (entries (snd (unregister_plugin p (snd (plugin p installer config r))))) p = None
    \<and> unregister_plugin p (snd (unregister_plugin p (snd (plugin p installer config r))))
        = (Return (), snd (unregister_plugin p (snd (plugin p installer config r))))
    \<and> fst (unregister_plugin q r') = Return ()
    \<and> (map_of (entries r') q = None \<longrightarrow> unregister_plugin q r' = (Return (), r'))"
proof -
  define r0 where "r0 = snd (unregister_plugin p r)"
  obtain h where h: "installer (host r0) config = (h, Return (Some C))"
    using assms by (metis prod.collapse)
  define r1 where "r1 = r0\<lparr>host := h, entries := entries r0 @ [(p, Some C)]\<rparr>"
  have pl: "plugin p installer config r = (Return (), r1)"
    using h plugin_installed [of installer p r config h "Some C"] by (simp add: r0_def r1_def)
  have absent0: "map_of (entries r0) p = None"
    by (simp add: r0_def unregister_removes)
  have present1: "map_of (entries r1) p = Some (Some C)"
  proof -
    have "map_of (entries r0 @ [(p, Some C)]) p = Some (Some C)"
      using absent0 by (rule map_of_append_absent)
    moreover have "entries r1 = entries r0 @ [(p, Some C)]"
      by (simp add: r1_def)
    ultimately show ?thesis by (simp only:)
  qed
  define r2 where "r2 = snd (unregister_plugin p r1)"
  have r2: "r2 = (invoke (Some C) r1)\<lparr>entries := filter (\<lambda>(n, c). n \<noteq> p) (entries r1)\<rparr>"
    using present1 by (simp add: r2_def unregister_present)
  have inv2: "invoked r2 = invoked r1 @ [cid C]"
    by (simp add: r2 invoke_def)
  have host2: "host r2 = fst (run C (host r1))"
    by (simp add: r2 invoke_def)
  have absent2: "map_of (entries r2) p = None"
    by (simp add: r2_def unregister_removes)
  have again: "unregister_plugin p r2 = (Return (), r2)"
    using absent2 by (rule unregister_absent)
  show ?thesis
    using pl present1 inv2 host2 absent2 again unregister_returns [of p r1]
      unregister_returns [of q r'] unregister_absent [of r' q]
    by (simp add: r2_def)
qed

theorem unregister_once_witness:
  "invoked (snd (unregister_plugin ''p''
      (snd (plugin ''p'' (\<lambda>h c. (Suc h, Return (Some (Cleanup 7 (\<lambda>h. (0, None)))))) ()
         \<lparr>entries = [], host = (0::nat), invoked = []\<rparr>)))) = [7]
   \<and> host (snd (unregister_plugin ''p''
      (snd (plugin ''p'' (\<lambda>h c. (Suc h, Return (Some (Cleanup 7 (\<lambda>h. (0, None)))))) ()
         \<lparr>entries = [], host = (0::nat), invoked = []\<rparr>)))) = 0
   \<and> unregister_plugin ''q'' \<lparr>entries = [], host = (0::nat), invoked = []\<rparr>
        = (Return (), \<lparr>entries = [], host = (0::nat), invoked = []\<rparr>)"
proof -
  have a: "\<forall>h. snd ((\<lambda>h c. (Suc h, Return (Some (Cleanup 7 (\<lambda>h. (0, None)))))) h ())
      = Return (Some (Cleanup 7 (\<lambda>h. (0, None))))"
    by simp
  have pl: "plugin ''p'' (\<lambda>h c. (Suc h, Return (Some (Cleanup 7 (\<lambda>h. (0, None)))))) ()
         \<lparr>entries = [], host = (0::nat), invoked = []\<rparr>
      = (Return (), \<lparr>entries = [(''p'', Some (Cleanup 7 (\<lambda>h. (0, None))))], host = Suc 0, invoked = []\<rparr>)"
    by (simp add: plugin_def unregister_plugin_def Let_def)
  show ?thesis
    using unregister_once [of "\<lambda>h c. (Suc h, Return (Some (Cleanup 7 (\<lambda>h. (0, None)))))" "()"
        "Cleanup 7 (\<lambda>h. (0, None))" "''p''" "\<lparr>entries = [], host = (0::nat), invoked = []\<rparr>"
        "''q''" "\<lparr>entries = [], host = (0::nat), invoked = []\<rparr>", OF a]
    by (simp add: pl)
qed

section \<open>Teardown\<close>

lemma shutdown_result:
  "fst (shutdown lr tr st) =
    (case log_provider st of
       None \<Rightarrow> (case tracer_provider st of None \<Rightarrow> Return () | Some q \<Rightarrow> fst (try_shutdown tr q))
     | Some p \<Rightarrow>
        (case fst (try_shutdown lr p) of
           Raise e \<Rightarrow> Raise e
         | Return u \<Rightarrow> (case tracer_provider st of None \<Rightarrow> Return () | Some q \<Rightarrow> fst (try_shutdown tr q))))"
  by (cases "log_provider st"; cases "tracer_provider st"; cases lr; cases tr)
     (simp_all add: shutdown_def try_shutdown_eq)

lemma try_shutdown_swallows:
  "(case r of None \<Rightarrow> True | Some e \<Rightarrow> is_Exception e) \<Longrightarrow> fst (try_shutdown r p) = Return ()"
  by (cases r) (simp_all add: try_shutdown_eq)

lemma shutdown_returns:
  assumes "case lr of None \<Rightarrow> True | Some e \<Rightarrow> is_Exception e"
    and "case tr of None \<Rightarrow> True | Some e \<Rightarrow> is_Exception e"
  shows "fst (shutdown lr tr st) = Return ()"
  unfolding shutdown_result
  by (simp add: try_shutdown_swallows [OF assms(1)] try_shutdown_swallows [OF assms(2)]
      split: option.splits)

lemma shutdown_attempts:
  assumes "case lr of None \<Rightarrow> True | Some e \<Rightarrow> is_Exception e"
  shows "map_option prov_shutdown_calls (log_provider (snd (shutdown lr tr st)))
        = map_option (\<lambda>p. Suc (prov_shutdown_calls p)) (log_provider st)
    \<and> map_option prov_shutdown_calls (tracer_provider (snd (shutdown lr tr st)))
        = map_option (\<lambda>p. Suc (prov_shutdown_calls p)) (tracer_provider st)"
  using assms
  by (cases "log_provider st"; cases "tracer_provider st"; cases lr; cases tr)
     (simp_all add: shutdown_def try_shutdown_eq)

lemma fold_invoke_invoked:
  "invoked (fold (\<lambda>(n, c). invoke c) es r) = invoked r @ cleanup_ids es"
proof (induction es arbitrary: r)
  case Nil
  then show ?case by (simp add: cleanup_ids_def)
next
  case (Cons x xs)
  obtain n c where x: "x = (n, c)" by (cases x)
  have "invoked (invoke c r) = invoked r @ (case c of None \<Rightarrow> [] | Some C \<Rightarrow> [cid C])"
    by (cases c) (simp_all add: invoke_def)
  then show ?case
    using Cons [of "invoke c r"] by (simp add: x cleanup_ids_def)
qed

lemma shutdown_plugins_invoked:
  "invoked (shutdown_plugins r) = invoked r @ cleanup_ids (entries r)
   \<and> entries (shutdown_plugins r) = []"
  by (simp add: shutdown_plugins_def fold_invoke_invoked)

lemma shutdown_facade_parts:
  "fst (shutdown_facade a b rs) = fst (shutdown a b (snd rs))
   \<and> fst (snd (shutdown_facade a b rs)) = shutdown_plugins (fst rs)
   \<and> snd (snd (shutdown_facade a b rs)) = snd (shutdown a b (snd rs))"
  by (simp add: shutdown_facade_def Let_def split: prod.splits)

text \<open>
  Claim C5. Whatever failures the two provider closes raise (exceptions deriving from
  \<open>Exception\<close>, which is what \<open>except Exception: pass\<close> swallows), \<open>shutdown\<close> returns without
  raising; each provider that exists has its close attempted, the tracer's also when the
  logger's failed; a repeated \<open>shutdown\<close> returns without raising as well. The \<open>shutdown\<close> of
  the sources runs no plugin cleanup; with the drain of the plugin registry that the
  specification puts in front of it, every stored cleanup is invoked, a cleanup that raises
  is swallowed, the call still returns, and a repeated call invokes no cleanup again.
\<close>

theorem shutdown_never_raises:
  assumes "case lr of None \<Rightarrow> True | Some e \<Rightarrow> is_Exception e"
    and "case tr of None \<Rightarrow> True | Some e \<Rightarrow> is_Exception e"
    and "case lr2 of None \<Rightarrow> True | Some e \<Rightarrow> is_Exception e"
    and "case tr2 of None \<Rightarrow> True | Some e \<Rightarrow> is_Exception e"
  shows "fst (shutdown lr tr st) = Return ()
    \<and> map_option prov_shutdown_calls (log_provider (snd (shutdown lr tr st)))
        = map_option (\<lambda>p. Suc (prov_shutdown_calls p)) (log_provider st)
    \<and> map_option prov_shutdown_calls (tracer_provider (snd (shutdown lr tr st)))
        = map_option (\<lambda>p. Suc (prov_shutdown_calls p)) (tracer_provider st)
    \<and> fst (shutdown lr2 tr2 (snd (shutdown lr tr st))) = Return ()
    \<and> fst (shutdown_facade lr tr (reg, st)) = Return ()
    \<and> invoked (fst (snd (shutdown_facade lr tr (reg, st)))) = invoked reg @ cleanup_ids (entries reg)
    \<and> fst (shutdown_facade lr2 tr2 (snd (shutdown_facade lr tr (reg, st)))) = Return ()
    \<and> invoked (fst (snd (shutdown_facade lr2 tr2 (snd (shutdown_facade lr tr (reg, st))))))
        = invoked (fst (snd (shutdown_facade lr tr (reg, st))))"
proof -
  have one: "fst (shutdown lr tr st) = Return ()"
    by (rule shutdown_returns [OF assms(1,2)])
  have two: "fst (shutdown lr2 tr2 (snd (shutdown lr tr st))) = Return ()"
    by (rule shutdown_returns [OF assms(3,4)])
  have drained: "cleanup_ids (entries (shutdown_plugins reg)) = []"
    by (simp add: shutdown_plugins_invoked cleanup_ids_def)
  show ?thesis
    using one two shutdown_attempts [OF assms(1), of tr st] drained
    by (simp add: shutdown_facade_parts shutdown_plugins_invoked)
qed

theorem shutdown_never_raises_witness:
  "fst (shutdown (Some (PyExc ''OSError'' ''flush failed'' [] True)) None
        (snd (init new_facade (default_args ''token'')))) = Return ()
   \<and> map_option prov_shutdown_calls (tracer_provider
        (snd (shutdown (Some (PyExc ''OSError'' ''flush failed'' [] True)) None
          (snd (init new_facade (default_args ''token'')))))) = Some 1
   \<and> fst (shutdown None None
        (snd (shutdown (Some (PyExc ''OSError'' ''flush failed'' [] True)) None
          (snd (init new_facade (default_args ''token'')))))) = Return ()
   \<and> fst (shutdown_facade (Some (PyExc ''OSError'' ''flush failed'' [] True)) None
        (\<lparr>entries = [(''p'', Some (Cleanup 7 (\<lambda>h. (h, Some (PyExc ''ValueError'' ''cleanup failed'' [] True)))))],
          host = (), invoked = []\<rparr>, snd (init new_facade (default_args ''token'')))) = Return ()
   \<and> invoked (fst (snd (shutdown_facade (Some (PyExc ''OSError'' ''flush failed'' [] True)) None
        (\<lparr>entries = [(''p'', Some (Cleanup 7 (\<lambda>h. (h, Some (PyExc ''ValueError'' ''cleanup failed'' [] True)))))],
          host = (), invoked = []\<rparr>, snd (init new_facade (default_args ''token'')))))) = [7]"
proof -
  have a: "case Some (PyExc ''OSError'' ''flush failed'' [] True) of None \<Rightarrow> True | Some e \<Rightarrow> is_Exception e"
    by simp
  have b: "case (None :: pyexc option) of None \<Rightarrow> True | Some e \<Rightarrow> is_Exception e"
    by simp
  show ?thesis
    using shutdown_never_raises [OF a b b b, of "snd (init new_facade (default_args ''token''))"
        "\<lparr>entries = [(''p'', Some (Cleanup 7 (\<lambda>h. (h, Some (PyExc ''ValueError'' ''cleanup failed'' [] True)))))],
          host = (), invoked = []\<rparr>"]
    by (simp add: init_tracer_provider cleanup_ids_def)
qed

section \<open>Sequences of registry calls\<close>

lemma stored_filter:
  "filter (\<lambda>(n, c). n \<noteq> name) (stored cur) = stored (filter (\<lambda>(n, x). n \<noteq> name) cur)"
  by (induction cur) (auto simp: stored_def)

lemma stored_map_of:
  "map_of (stored cur) name = map_option (\<lambda>(i, H). Some (hook_cleanup i H)) (map_of cur name)"
  by (induction cur) (auto simp: stored_def)

lemma stored_names: "map fst (stored cur) = map fst cur"
  by (induction cur) (auto simp: stored_def)

lemma filter_absent:
  "map_of cur name = None \<Longrightarrow> filter (\<lambda>(n, x). n \<noteq> name) cur = cur"
  by (induction cur) (auto split: if_splits)

lemma hooks_of_Cons: "hooks_of ((n, i, H) # cur) = mset H + hooks_of cur"
  by (simp add: hooks_of_def)

lemma hooks_of_snoc: "hooks_of (cur @ [(n, i, H)]) = hooks_of cur + mset H"
  by (simp add: hooks_of_def)

lemma hooks_of_present:
  "distinct (map fst cur) \<Longrightarrow> map_of cur name = Some (i, H) \<Longrightarrow>
    hooks_of cur = hooks_of (filter (\<lambda>(n, x). n \<noteq> name) cur) + mset H"
proof (induction cur)
  case Nil
  then show ?case by simp
next
  case (Cons x cur)
  obtain n j K where x: "x = (n, j, K)" by (cases x)
  show ?case
  proof (cases "n = name")
    case True
    then have "j = i" "K = H" using Cons.prems(2) x by simp_all
    moreover have "map_of cur name = None"
      using Cons.prems(1) x True by (simp add: map_of_eq_None_iff)
    ultimately show ?thesis
      using x True by (simp add: filter_absent hooks_of_Cons)
  next
    case False
    then have "map_of cur name = Some (i, H)" using Cons.prems(2) x by simp
    moreover have "distinct (map fst cur)" using Cons.prems(1) by simp
    ultimately have "hooks_of cur = hooks_of (filter (\<lambda>(n, x). n \<noteq> name) cur) + mset H"
      by (rule Cons.IH [rotated])
    then show ?thesis using x False by (simp add: hooks_of_Cons)
  qed
qed

lemma distinct_filter_names:
  "distinct (map fst cur) \<Longrightarrow> distinct (map fst (filter (\<lambda>(n, x). n \<noteq> name) cur))"
  by (simp add: distinct_map_filter)

lemma filter_names_absent: "name \<notin> fst ` set (filter (\<lambda>(n, x). n \<noteq> name) cur)"
  by auto

lemma consistent_unregister:
  assumes "consistent r cur"
  shows "consistent (snd (unregister_plugin name r)) (filter (\<lambda>(n, x). n \<noteq> name) cur)"
proof (cases "map_of cur name")
  case None
  then have "map_of (entries r) name = None"
    using assms by (simp add: consistent_def stored_map_of)
  then have "snd (unregister_plugin name r) = r" by (simp add: unregister_absent)
  then show ?thesis using assms None by (simp add: filter_absent)
next
  case (Some iH)
  obtain i H where iH: "iH = (i, H)" by (cases iH)
  have m: "map_of (entries r) name = Some (Some (hook_cleanup i H))"
    using assms Some iH by (simp add: consistent_def stored_map_of)
  have e: "entries (snd (unregister_plugin name r)) = stored (filter (\<lambda>(n, x). n \<noteq> name) cur)"
    using assms by (simp add: unregister_present [OF m] consistent_def stored_filter)
  have "host (snd (unregister_plugin name r)) = host r - mset H"
    by (simp add: unregister_present [OF m] invoke_def hook_cleanup_def)
  also have "host r = hooks_of (filter (\<lambda>(n, x). n \<noteq> name) cur) + mset H"
    using assms hooks_of_present [of cur name i H] Some iH by (simp add: consistent_def)
  finally have h: "host (snd (unregister_plugin name r)) = hooks_of (filter (\<lambda>(n, x). n \<noteq> name) cur)"
    by simp
  show ?thesis
    using e h assms by (simp add: consistent_def distinct_filter_names)
qed

lemma consistent_register:
  assumes "consistent r cur"
  shows "consistent (snd (plugin name (hook_installer i H) () r))
    (filter (\<lambda>(n, x). n \<noteq> name) cur @ [(name, i, H)])"
proof -
  define r0 where "r0 = snd (unregister_plugin name r)"
  define cur0 where "cur0 = filter (\<lambda>(n, x). n \<noteq> name) cur"
  have c0: "consistent r0 cur0"
    unfolding r0_def cur0_def using assms by (rule consistent_unregister)
  have p: "snd (plugin name (hook_installer i H) () r)
      = r0\<lparr>host := host r0 + mset H, entries := entries r0 @ [(name, Some (hook_cleanup i H))]\<rparr>"
    by (simp add: plugin_def Let_def hook_installer_def r0_def)
  have d: "distinct (map fst (cur0 @ [(name, i, H)]))"
    using c0 filter_names_absent [of name cur] by (simp add: consistent_def cur0_def)
  show ?thesis
    using c0 d unfolding p cur0_def [symmetric]
    by (simp add: consistent_def stored_def hooks_of_snoc)
qed

lemma consistent_step: "consistent r cur \<Longrightarrow> consistent (apply_call c r) (track c cur)"
  by (cases c) (simp_all add: apply_call_def track_def consistent_register consistent_unregister)

lemma consistent_fold:
  "consistent r cur \<Longrightarrow> consistent (fold apply_call cs r) (fold track cs cur)"
  by (induction cs arbitrary: r cur) (simp_all add: consistent_step)

lemma consistent_run: "consistent (run_calls cs empty_registry) (current cs)"
  unfolding run_calls_def current_def
  by (rule consistent_fold) (simp add: consistent_def empty_registry_def stored_def hooks_of_def)

lemma unregister_twice:
  "snd (unregister_plugin name (snd (unregister_plugin name r))) = snd (unregister_plugin name r)"
  by (simp add: unregister_absent [OF unregister_removes])

lemma plugin_after_unregister:
  "plugin name installer config (snd (unregister_plugin name r)) = plugin name installer config r"
  by (simp add: plugin_def unregister_twice)

lemma filter_filter_snoc:
  "filter (\<lambda>(n, x). n \<noteq> name) (filter (\<lambda>(n, x). n \<noteq> name) cur @ [(name, i, H)])
    = filter (\<lambda>(n, x). n \<noteq> name) cur"
  by (induction cur) auto

lemma current_snoc: "current (cs @ [c]) = track c (current cs)"
  by (simp add: current_def)

lemma current_reregister:
  "current (cs @ [Register name i H, Register name j K]) = current (cs @ [Register name j K])"
proof -
  have "current (cs @ [Register name i H, Register name j K])
      = track (Register name j K) (track (Register name i H) (current cs))"
    by (simp add: current_def)
  also have "\<dots> = track (Register name j K) (current cs)"
    by (simp add: track_def filter_filter_snoc)
  finally show ?thesis by (simp add: current_snoc)
qed

text \<open>
  Claim C2. After every sequence of \<open>plugin\<close> and \<open>unregister_plugin\<close> calls (with plugins
  whose installer adds their hooks and whose cleanup takes them out again), the installed
  hooks are the hooks of the plugins currently registered, one plugin under each name, and
  the registry holds exactly their cleanups under distinct names. Registering a name is
  unregistering it and then registering it: the stored cleanup of a registered name runs
  before the new installer, the name having no entry in between. So registering twice
  under a name leaves the hooks of the second registration only, as if the first had not
  been made, and the first cleanup has been invoked.
\<close>

theorem registry_tracks_current:
  "host (run_calls cs empty_registry) = hooks_of (current cs)
   \<and> entries (run_calls cs empty_registry) = stored (current cs)
   \<and> map fst (entries (run_calls cs empty_registry)) = map fst (current cs)
   \<and> distinct (map fst (entries (run_calls cs empty_registry)))
   \<and> plugin name installer config r = plugin name installer config (snd (unregister_plugin name r))
   \<and> map_of (entries (snd (unregister_plugin name r))) name = None
   \<and> host (run_calls (cs @ [Register name i H, Register name j K]) empty_registry)
       = host (run_calls (cs @ [Register name j K]) empty_registry)
   \<and> run_calls [Register name i H, Register name j K] empty_registry
       = \<lparr>entries = [(name, Some (hook_cleanup j K))], host = mset K, invoked = [i]\<rparr>"
proof -
  have c: "\<And>cs :: 'a reg_call list. consistent (run_calls cs empty_registry) (current cs)"
    by (rule consistent_run)
  have h: "\<And>cs :: 'a reg_call list. host (run_calls cs empty_registry) = hooks_of (current cs)"
    using c by (simp add: consistent_def)
  have e: "entries (run_calls cs empty_registry) = stored (current cs)"
    using c [of cs] by (simp add: consistent_def)
  have d: "distinct (map fst (entries (run_calls cs empty_registry)))"
    using c [of cs] by (simp add: consistent_def stored_names)
  have twice: "host (run_calls (cs @ [Register name i H, Register name j K]) empty_registry)
       = host (run_calls (cs @ [Register name j K]) empty_registry)"
    by (simp only: h current_reregister)
  have concrete: "run_calls [Register name i H, Register name j K] empty_registry
       = \<lparr>entries = [(name, Some (hook_cleanup j K))], host = mset K, invoked = [i]\<rparr>"
    by (simp add: run_calls_def apply_call_def plugin_def unregister_plugin_def Let_def
        hook_installer_def empty_registry_def invoke_def hook_cleanup_def)
  show ?thesis
    using h [of cs] e d twice concrete
    by (simp add: stored_names plugin_after_unregister unregister_removes)
qed

end
